theory Spec2Isabelle
  imports Complex_Main
begin

section \<open>Numbers\<close>

text \<open>
  The detection hook \<open>useObjectDetection\<close> computes with JavaScript numbers. Prediction
  scores and box coordinates are modelled as real numbers. A division is the one place
  where the source can leave the finite numbers, so the result of a division is a
  \<open>jsnum\<close>: a finite real, one of the two infinities, or NaN. Signed zeros and rounding
  of the binary representation are not distinguished.
\<close>

datatype jsnum = Fin real | PosInf | NegInf | NaN

fun js_div :: "jsnum \<Rightarrow> jsnum \<Rightarrow> jsnum" where
  "js_div (Fin a) (Fin b) =
     (if b = 0 then (if 0 < a then PosInf else if a < 0 then NegInf else NaN)
      else Fin (a / b))"
| "js_div NaN _ = NaN"
| "js_div _ NaN = NaN"
| "js_div (Fin a) _ = Fin 0"
| "js_div PosInf (Fin b) = (if 0 \<le> b then PosInf else NegInf)"
| "js_div NegInf (Fin b) = (if 0 \<le> b then NegInf else PosInf)"
| "js_div _ _ = NaN"

fun js_add :: "jsnum \<Rightarrow> jsnum \<Rightarrow> jsnum" where
  "js_add (Fin a) (Fin b) = Fin (a + b)"
| "js_add NaN _ = NaN"
| "js_add _ NaN = NaN"
| "js_add PosInf NegInf = NaN"
| "js_add NegInf PosInf = NaN"
| "js_add PosInf _ = PosInf"
| "js_add _ PosInf = PosInf"
| "js_add NegInf _ = NegInf"
| "js_add _ NegInf = NegInf"

fun js_neg :: "jsnum \<Rightarrow> jsnum" where
  "js_neg (Fin a) = Fin (- a)"
| "js_neg PosInf = NegInf"
| "js_neg NegInf = PosInf"
| "js_neg NaN = NaN"

definition js_sub :: "jsnum \<Rightarrow> jsnum \<Rightarrow> jsnum" where
  "js_sub a b = js_add a (js_neg b)"

fun js_mul :: "jsnum \<Rightarrow> jsnum \<Rightarrow> jsnum" where
  "js_mul (Fin a) (Fin b) = Fin (a * b)"
| "js_mul NaN _ = NaN"
| "js_mul _ NaN = NaN"
| "js_mul (Fin a) PosInf = (if a = 0 then NaN else if 0 < a then PosInf else NegInf)"
| "js_mul (Fin a) NegInf = (if a = 0 then NaN else if 0 < a then NegInf else PosInf)"
| "js_mul PosInf (Fin b) = (if b = 0 then NaN else if 0 < b then PosInf else NegInf)"
| "js_mul NegInf (Fin b) = (if b = 0 then NaN else if 0 < b then NegInf else PosInf)"
| "js_mul PosInf PosInf = PosInf"
| "js_mul NegInf NegInf = PosInf"
| "js_mul _ _ = NegInf"

text \<open>\<open>Math.abs\<close>, \<open>Math.min\<close> and \<open>Math.round\<close> (which rounds halves upwards).\<close>

fun js_abs :: "jsnum \<Rightarrow> jsnum" where
  "js_abs (Fin a) = Fin \<bar>a\<bar>"
| "js_abs NaN = NaN"
| "js_abs _ = PosInf"

fun js_min :: "jsnum \<Rightarrow> jsnum \<Rightarrow> jsnum" where
  "js_min (Fin a) (Fin b) = Fin (min a b)"
| "js_min NaN _ = NaN"
| "js_min _ NaN = NaN"
| "js_min NegInf _ = NegInf"
| "js_min _ NegInf = NegInf"
| "js_min PosInf b = b"
| "js_min a PosInf = a"

fun js_round :: "jsnum \<Rightarrow> jsnum" where
  "js_round (Fin a) = Fin (of_int \<lfloor>a + 1 / 2\<rfloor>)"
| "js_round n = n"

text \<open>Comparisons of a number with a finite bound; every comparison with NaN is false.\<close>

fun js_gt :: "jsnum \<Rightarrow> real \<Rightarrow> bool" where
  "js_gt (Fin a) r = (r < a)"
| "js_gt PosInf r = True"
| "js_gt _ r = False"

fun js_ge :: "jsnum \<Rightarrow> real \<Rightarrow> bool" where
  "js_ge (Fin a) r = (r \<le> a)"
| "js_ge PosInf r = True"
| "js_ge _ r = False"

fun js_le :: "jsnum \<Rightarrow> real \<Rightarrow> bool" where
  "js_le (Fin a) r = (a \<le> r)"
| "js_le NegInf r = True"
| "js_le _ r = False"

section \<open>Predictions and boxes\<close>

text \<open>
  A box is the detector's array \<open>[x, y, width, height]\<close>, read by position as the source
  reads it. A prediction carries its class label, its score and its box.
\<close>

type_synonym bbox = "real \<times> real \<times> real \<times> real"

record prediction =
  pclass :: string
  score :: real
  bbox :: bbox

fun bbox_at :: "bbox \<Rightarrow> nat \<Rightarrow> real" where
  "bbox_at (b0, b1, b2, b3) i =
     (if i = 0 then b0 else if i = 1 then b1 else if i = 2 then b2 else b3)"

section \<open>Intersection over union\<close>

text \<open>
  \<open>calculateIoU\<close>: the corners of the intersection rectangle, the early return of 0
  when it is empty, and otherwise the intersection area divided by the union area.
\<close>

definition intersection_empty :: "bbox \<Rightarrow> bbox \<Rightarrow> bool" where
  "intersection_empty bbox1 bbox2 =
     (case bbox1 of (x1, y1, w1, h1) \<Rightarrow> case bbox2 of (x2, y2, w2, h2) \<Rightarrow>
        let x1_max = x1 + w1; y1_max = y1 + h1;
            x2_max = x2 + w2; y2_max = y2 + h2;
            intersect_x1 = max x1 x2; intersect_y1 = max y1 y2;
            intersect_x2 = min x1_max x2_max; intersect_y2 = min y1_max y2_max
        in intersect_x2 \<le> intersect_x1 \<or> intersect_y2 \<le> intersect_y1)"

definition intersect_area :: "bbox \<Rightarrow> bbox \<Rightarrow> real" where
  "intersect_area bbox1 bbox2 =
     (case bbox1 of (x1, y1, w1, h1) \<Rightarrow> case bbox2 of (x2, y2, w2, h2) \<Rightarrow>
        let x1_max = x1 + w1; y1_max = y1 + h1;
            x2_max = x2 + w2; y2_max = y2 + h2;
            intersect_x1 = max x1 x2; intersect_y1 = max y1 y2;
            intersect_x2 = min x1_max x2_max; intersect_y2 = min y1_max y2_max
        in (intersect_x2 - intersect_x1) * (intersect_y2 - intersect_y1))"

definition union_area :: "bbox \<Rightarrow> bbox \<Rightarrow> real" where
  "union_area bbox1 bbox2 =
     (case bbox1 of (x1, y1, w1, h1) \<Rightarrow> case bbox2 of (x2, y2, w2, h2) \<Rightarrow>
        let bbox1_area = w1 * h1; bbox2_area = w2 * h2
        in bbox1_area + bbox2_area - intersect_area bbox1 bbox2)"

definition calculateIoU :: "bbox \<Rightarrow> bbox \<Rightarrow> jsnum" where
  "calculateIoU bbox1 bbox2 =
     (if intersection_empty bbox1 bbox2 then Fin 0
      else js_div (Fin (intersect_area bbox1 bbox2)) (Fin (union_area bbox1 bbox2)))"


section \<open>Class filter and mobile validator\<close>

text \<open>
  \<open>validateMobileDetection\<close> destructures the first two entries of the box array
  and names them \<open>width\<close> and \<open>height\<close>.
\<close>

definition validateMobileDetection :: "prediction \<Rightarrow> bool" where
  "validateMobileDetection prediction =
     (case bbox prediction of (width, height, b2, b3) \<Rightarrow>
        let aspectRatio = js_div (Fin width) (Fin height);
            isValidAspectRatio =
              ((js_ge aspectRatio 0.35 \<and> js_le aspectRatio 0.75) \<or>
               (js_ge aspectRatio 1.4 \<and> js_le aspectRatio 2.8));
            minArea = 1200;
            area = width * height;
            hasValidSize = (area \<ge> minArea);
            hasValidConfidence = (score prediction \<ge> 0.25)
        in isValidAspectRatio \<and> hasValidSize \<and> hasValidConfidence)"

definition relevantClasses :: "(string \<times> real) list" where
  "relevantClasses =
     [(''cell phone'', 0.25), (''person'', 0.5), (''laptop'', 0.6), (''tablet'', 0.5),
      (''book'', 0.3), (''bottle'', 0.4), (''cup'', 0.4), (''mouse'', 0.5),
      (''keyboard'', 0.6), (''remote'', 0.4), (''tv'', 0.6), (''monitor'', 0.6)]"

definition class_threshold :: "string \<Rightarrow> real" where
  "class_threshold c = (case map_of relevantClasses c of Some t \<Rightarrow> t | None \<Rightarrow> 0.5)"

definition filterPredictions :: "prediction list \<Rightarrow> prediction list" where
  "filterPredictions preds =
     filter (\<lambda>pred.
        let threshold = class_threshold (pclass pred);
            meetsThreshold = (score pred \<ge> threshold)
        in if pclass pred = ''cell phone''
           then meetsThreshold \<and> validateMobileDetection pred
           else meetsThreshold) preds"

section \<open>Non-maximum suppression\<close>

text \<open>
  \<open>processPredictions\<close> sorts by descending score (the sort is stable) and runs two
  nested loops over the indices of the sorted array, with the list \<open>keep\<close> and the set
  \<open>suppressed\<close> of indices as the loop state.
\<close>

definition suppresses :: "real \<Rightarrow> prediction \<Rightarrow> prediction \<Rightarrow> bool" where
  "suppresses threshold p q =
     (let iou = calculateIoU (bbox p) (bbox q)
      in js_gt iou threshold \<and> pclass p = pclass q)"

function inner_loop :: "prediction list \<Rightarrow> real \<Rightarrow> nat \<Rightarrow> nat \<Rightarrow> nat set \<Rightarrow> nat set" where
  "inner_loop sorted' threshold i j suppressed =
     (if j < length sorted' then
        (if j \<in> suppressed then inner_loop sorted' threshold i (j + 1) suppressed
         else if suppresses threshold (sorted' ! i) (sorted' ! j)
              then inner_loop sorted' threshold i (j + 1) (insert j suppressed)
              else inner_loop sorted' threshold i (j + 1) suppressed)
      else suppressed)"
  by pat_completeness auto
termination
  by (relation "measure (\<lambda>(sorted', threshold, i, j, suppressed). length sorted' - j)") auto

function outer_loop ::
  "prediction list \<Rightarrow> real \<Rightarrow> nat \<Rightarrow> prediction list \<Rightarrow> nat set \<Rightarrow> prediction list" where
  "outer_loop sorted' threshold i keep suppressed =
     (if i < length sorted' then
        (if i \<in> suppressed then outer_loop sorted' threshold (i + 1) keep suppressed
         else outer_loop sorted' threshold (i + 1) (keep @ [sorted' ! i])
                (inner_loop sorted' threshold i (i + 1) suppressed))
      else keep)"
  by pat_completeness auto
termination
  by (relation "measure (\<lambda>(sorted', threshold, i, keep, suppressed). length sorted' - i)") auto

definition processPredictions :: "prediction list \<Rightarrow> real \<Rightarrow> prediction list" where
  "processPredictions preds threshold =
     (let sorted' = sort_key (\<lambda>p. - score p) preds
      in outer_loop sorted' threshold 0 [] {})"

definition applyNMS :: "prediction list \<Rightarrow> real \<Rightarrow> prediction list" where
  "applyNMS predictions iouThreshold =
     (if length predictions \<le> 1 then predictions
      else
        let mobilePreds = filter (\<lambda>p. pclass p = ''cell phone'') predictions;
            otherPreds = filter (\<lambda>p. pclass p \<noteq> ''cell phone'') predictions;
            filteredMobile = processPredictions mobilePreds 0.2;
            filteredOther = processPredictions otherPreds iouThreshold
        in filteredMobile @ filteredOther)"

text \<open>
  The same greedy selection as a recursion on the sorted list: the head is kept and the
  predictions it suppresses are removed from the rest.
\<close>

fun greedy_keep :: "real \<Rightarrow> prediction list \<Rightarrow> prediction list" where
  "greedy_keep threshold [] = []"
| "greedy_keep threshold (p # ps) =
     p # greedy_keep threshold (filter (\<lambda>q. \<not> suppresses threshold p q) ps)"

section \<open>Orchestrator state\<close>

text \<open>
  The refs and React state of the hook, as one record. \<open>modelRef\<close> says whether a
  model is loaded; \<open>liveCanvases\<close> counts the canvases that \<open>preprocessVideo\<close> has
  handed out and that have not been removed since.
\<close>

record history_entry =
  h_timestamp :: int
  h_predictions :: "prediction list"

record mobile_entry =
  m_timestamp :: int
  m_bbox :: bbox
  m_confidence :: real

datatype detection_type = Mobile | Person | FocusLost | MultiplePeople | UnknownObject

text \<open>
  A logged event. The id string is made of the pass's time and the index of the
  prediction; the description text is made of the class label and the score.
\<close>

record Detection =
  d_id :: "int \<times> nat"
  d_timestamp :: int
  d_type :: detection_type
  d_confidence :: real
  d_bbox :: bbox
  d_description :: "string \<times> real"

record FocusMetrics =
  focusScore :: jsnum
  eyeContactScore :: jsnum
  headPoseScore :: jsnum
  overallAttention :: jsnum

record orchestrator =
  modelRef :: bool
  isDetecting :: bool
  lastDetectionTimeRef :: int
  detections :: "Detection list"
  focusMetrics :: FocusMetrics
  detectionHistoryRef :: "history_entry list"
  mobileDetectionHistory :: "mobile_entry list"
  liveCanvases :: nat

section \<open>Temporal smoothing\<close>

definition similarDetections :: "history_entry list \<Rightarrow> prediction \<Rightarrow> prediction list" where
  "similarDetections history prediction =
     filter (\<lambda>pred.
        if pclass pred \<noteq> pclass prediction then False
        else let iouThreshold = (if pclass pred = ''cell phone'' then 0.4 else 0.5)
             in js_gt (calculateIoU (bbox pred) (bbox prediction)) iouThreshold)
       (concat (map h_predictions history))"

text \<open>
  The fused prediction. The divisor is the number of similar detections, which is at
  least 2 where \<open>fuse\<close> is called.
\<close>

definition fuse :: "prediction \<Rightarrow> prediction list \<Rightarrow> prediction" where
  "fuse prediction similar =
     (let avgScore = foldl (\<lambda>sum pred. sum + score pred) 0 similar / real (length similar);
          avgBbox =
            (foldl (\<lambda>sum pred. sum + bbox_at (bbox pred) 0) 0 similar / real (length similar),
             foldl (\<lambda>sum pred. sum + bbox_at (bbox pred) 1) 0 similar / real (length similar),
             foldl (\<lambda>sum pred. sum + bbox_at (bbox pred) 2) 0 similar / real (length similar),
             foldl (\<lambda>sum pred. sum + bbox_at (bbox pred) 3) 0 similar / real (length similar));
          confidenceBoost = (if pclass prediction = ''cell phone'' then 1.15 else 1.1)
      in prediction\<lparr>score := min 1 (avgScore * confidenceBoost), bbox := avgBbox\<rparr>)"

definition smooth_prediction :: "history_entry list \<Rightarrow> prediction \<Rightarrow> prediction" where
  "smooth_prediction history prediction =
     (let similar = similarDetections history prediction
      in if length similar \<ge> 2 then fuse prediction similar else prediction)"

definition applyTemporalSmoothing ::
  "orchestrator \<Rightarrow> int \<Rightarrow> prediction list \<Rightarrow> prediction list \<times> orchestrator" where
  "applyTemporalSmoothing s now currentPredictions =
     (let historyWindow = 600;
          pushed = detectionHistoryRef s @
                     [\<lparr>h_timestamp = now, h_predictions = currentPredictions\<rparr>];
          history = filter (\<lambda>entry. now - h_timestamp entry \<le> historyWindow) pushed;
          mobilePreds = filter (\<lambda>p. pclass p = ''cell phone'') currentPredictions;
          mobilePushed = mobileDetectionHistory s @
                     map (\<lambda>pred. \<lparr>m_timestamp = now, m_bbox = bbox pred,
                                   m_confidence = score pred\<rparr>) mobilePreds;
          mobileHistory = filter (\<lambda>entry. now - m_timestamp entry \<le> historyWindow) mobilePushed;
          s' = s\<lparr>detectionHistoryRef := history, mobileDetectionHistory := mobileHistory\<rparr>
      in if length history < 2 then (currentPredictions, s')
         else (map (smooth_prediction history) currentPredictions, s'))"

section \<open>Events\<close>

definition toLowerCase :: "string \<Rightarrow> string" where
  "toLowerCase str =
     map (\<lambda>c. let n = (of_char c :: nat)
               in if 65 \<le> n \<and> n \<le> 90 then char_of (n + 32) else c) str"

fun str_includes :: "string \<Rightarrow> string \<Rightarrow> bool" where
  "str_includes [] sub = (sub = [])"
| "str_includes (c # cs) sub = (take (length sub) (c # cs) = sub \<or> str_includes cs sub)"

definition getDetectionType :: "string \<Rightarrow> detection_type option" where
  "getDetectionType className =
     (let lowerClass = toLowerCase className
      in if str_includes lowerClass ''phone'' \<or> str_includes lowerClass ''cell'' then Some Mobile
         else if lowerClass = ''person'' then Some Person
         else if str_includes lowerClass ''laptop'' \<or> str_includes lowerClass ''tablet'' \<or>
                 str_includes lowerClass ''keyboard'' \<or> str_includes lowerClass ''mouse'' \<or>
                 str_includes lowerClass ''monitor'' \<or> str_includes lowerClass ''tv''
              then Some UnknownObject
         else Some UnknownObject)"

definition newDetectionsOf :: "int \<Rightarrow> prediction list \<Rightarrow> Detection list" where
  "newDetectionsOf currentTime smoothedPredictions =
     concat (map (\<lambda>(index, prediction).
        case getDetectionType (pclass prediction) of
          None \<Rightarrow> []
        | Some detectionType \<Rightarrow>
            [\<lparr>d_id = (currentTime, index), d_timestamp = currentTime,
              d_type = detectionType, d_confidence = score prediction,
              d_bbox = (bbox_at (bbox prediction) 0, bbox_at (bbox prediction) 1,
                        bbox_at (bbox prediction) 2, bbox_at (bbox prediction) 3),
              d_description = (pclass prediction, score prediction * 100)\<rparr>])
       (enumerate 0 smoothedPredictions))"

text \<open>The event log: \<open>[...prev, ...newDetections].slice(-50)\<close>, skipped for an empty batch.\<close>

definition slice_last :: "nat \<Rightarrow> 'a list \<Rightarrow> 'a list" where
  "slice_last n xs = drop (length xs - n) xs"

definition appendDetections :: "'a list \<Rightarrow> 'a list \<Rightarrow> 'a list" where
  "appendDetections prev newDetections =
     (if length newDetections > 0
      then (let updated = prev @ newDetections in slice_last 50 updated)
      else prev)"


section \<open>Attention scores\<close>

definition personDetectionsOf :: "prediction list \<Rightarrow> prediction list" where
  "personDetectionsOf smoothedPredictions = filter (\<lambda>p. pclass p = ''person'') smoothedPredictions"

definition mobileDevicesOf :: "prediction list \<Rightarrow> prediction list" where
  "mobileDevicesOf smoothedPredictions = filter (\<lambda>p. pclass p = ''cell phone'') smoothedPredictions"

definition computerDevicesOf :: "prediction list \<Rightarrow> prediction list" where
  "computerDevicesOf smoothedPredictions =
     filter (\<lambda>p. pclass p \<in> set [''laptop'', ''tablet'', ''keyboard'', ''mouse'', ''monitor''])
       smoothedPredictions"

definition distractingObjectsOf :: "prediction list \<Rightarrow> prediction list" where
  "distractingObjectsOf smoothedPredictions =
     filter (\<lambda>p. pclass p \<in> set [''bottle'', ''cup'', ''book'', ''remote'', ''tv''])
       smoothedPredictions"

definition focus_score :: "prediction list \<Rightarrow> real" where
  "focus_score smoothedPredictions =
     (let personDetections = personDetectionsOf smoothedPredictions;
          f0 = 80;
          f1 = f0 - foldl (\<lambda>penalty device.
                  let basePenalty = 35;
                      confidenceMultiplier = min 1.5 (score device * 1.5)
                  in penalty + basePenalty * confidenceMultiplier) 0
                (mobileDevicesOf smoothedPredictions);
          f2 = f1 - foldl (\<lambda>penalty device. penalty + score device * 15) 0
                (computerDevicesOf smoothedPredictions);
          f3 = f2 - foldl (\<lambda>penalty obj. penalty + score obj * 8) 0
                (distractingObjectsOf smoothedPredictions);
          f4 = (if length personDetections = 1 \<and> score (personDetections ! 0) > 0.7
                then f3 + 5 else f3)
      in max 0 (min 100 f4))"

definition eye_contact_score :: "prediction list \<Rightarrow> real \<Rightarrow> jsnum" where
  "eye_contact_score smoothedPredictions inputWidth =
     (let personDetections = personDetectionsOf smoothedPredictions;
          mobileDevices = mobileDevicesOf smoothedPredictions
      in if length personDetections = 0 then Fin 20
         else if length personDetections = 1 then
           (let person = personDetections ! 0;
                centeredness =
                  js_sub (Fin 1)
                    (js_abs (js_sub
                       (js_div (Fin (bbox_at (bbox person) 0 + bbox_at (bbox person) 2 / 2))
                          (Fin inputWidth))
                       (Fin 0.5)));
                eyeContactScore =
                  js_min (Fin 100)
                    (js_add (Fin (60 + score person * 25)) (js_mul centeredness (Fin 15)))
            in if length mobileDevices > 0 then js_sub eyeContactScore (Fin 20)
               else eyeContactScore)
         else Fin (max 30 (100 - (real (length personDetections) - 1) * 25)))"

definition head_pose_score :: "prediction list \<Rightarrow> real \<Rightarrow> real \<Rightarrow> jsnum" where
  "head_pose_score smoothedPredictions inputWidth inputHeight =
     (let personDetections = personDetectionsOf smoothedPredictions;
          mobileDevices = mobileDevicesOf smoothedPredictions
      in if length personDetections = 1 then
           (let person = personDetections ! 0;
                faceSize =
                  js_div (Fin (bbox_at (bbox person) 2 * bbox_at (bbox person) 3))
                    (Fin (inputWidth * inputHeight));
                sizeScore = js_min (Fin 40) (js_mul faceSize (Fin 1000));
                headPoseScore =
                  js_min (Fin 100) (js_add (Fin (50 + score person * 30)) sizeScore)
            in if length mobileDevices > 0 then js_sub headPoseScore (Fin 15)
               else headPoseScore)
         else Fin 60)"

definition newFocusMetricsOf :: "prediction list \<Rightarrow> real \<Rightarrow> real \<Rightarrow> FocusMetrics" where
  "newFocusMetricsOf smoothedPredictions inputWidth inputHeight =
     (let focus = Fin (focus_score smoothedPredictions);
          eye = eye_contact_score smoothedPredictions inputWidth;
          head = head_pose_score smoothedPredictions inputWidth inputHeight
      in \<lparr>focusScore = js_round focus,
          eyeContactScore = js_round eye,
          headPoseScore = js_round head,
          overallAttention = js_round (js_div (js_add (js_add focus eye) head) (Fin 3))\<rparr>)"

section \<open>Frame preprocessing\<close>

text \<open>
  What the pipeline reads of a video element: its ready state, the intrinsic size of the
  video, the element's own \<open>width\<close> and \<open>height\<close>, and whether a 2D context can be
  obtained for a new canvas. Of the canvas only its size is kept: the pixels go to the
  detector, whose answer is an input of the model.
\<close>

record video =
  readyState :: nat
  videoWidth :: nat
  videoHeight :: nat
  elementWidth :: nat
  elementHeight :: nat
  context2d :: bool

record canvas =
  c_width :: nat
  c_height :: nat

text \<open>Assigning a number to the integer-valued size attributes of a canvas truncates it.\<close>

fun to_unsigned_long :: "jsnum \<Rightarrow> nat" where
  "to_unsigned_long (Fin a) = nat ((if 0 \<le> a then \<lfloor>a\<rfloor> else \<lceil>a\<rceil>) mod 4294967296)"
| "to_unsigned_long _ = 0"

definition preprocessVideo :: "video option \<Rightarrow> canvas option" where
  "preprocessVideo videoElement =
     (case videoElement of
        None \<Rightarrow> None
      | Some v \<Rightarrow>
          if readyState v < 2 then None
          else if \<not> context2d v then None
          else
            let maxSize = 640;
                aspectRatio = js_div (Fin (real (videoWidth v))) (Fin (real (videoHeight v)))
            in if js_gt aspectRatio 1 then
                 (let cw = to_unsigned_long (Fin (real (min maxSize (videoWidth v))));
                      ch = to_unsigned_long (js_div (Fin (real cw)) aspectRatio)
                  in Some \<lparr>c_width = cw, c_height = ch\<rparr>)
               else
                 (let ch = to_unsigned_long (Fin (real (min maxSize (videoHeight v))));
                      cw = to_unsigned_long (js_mul (Fin (real ch)) aspectRatio)
                  in Some \<lparr>c_width = cw, c_height = ch\<rparr>))"

section \<open>The detection pass\<close>

text \<open>
  \<open>detectObjects\<close> is asynchronous: it runs up to the call of the detector, waits for
  the answer, and resumes. \<open>detectObjects_start\<close> is the part before the wait: it
  returns null or leaves the call pending with the canvas it made, if any.
  \<open>detectObjects_resume\<close> is the part after it; the detector's answer is \<open>Inr\<close> of its
  predictions, or \<open>Inl\<close> when the call throws. The clock is read at the throttle, in the
  smoother and for the events; the three readings are arguments.
\<close>

record pipeline_result =
  r_predictions :: "prediction list"
  r_newDetections :: "Detection list"
  r_mobileCount :: nat
  r_personCount :: nat
  r_totalDevices :: nat

datatype start_result = ReturnedNull | Pending video "canvas option"

datatype detect_error = DetectorThrew

text \<open>\<open>inputElement\<close> is the canvas when there is one, and the video element otherwise.\<close>

definition inputElement_width :: "video \<Rightarrow> canvas option \<Rightarrow> real" where
  "inputElement_width v processedCanvas =
     (case processedCanvas of Some c \<Rightarrow> real (c_width c) | None \<Rightarrow> real (elementWidth v))"

definition inputElement_height :: "video \<Rightarrow> canvas option \<Rightarrow> real" where
  "inputElement_height v processedCanvas =
     (case processedCanvas of Some c \<Rightarrow> real (c_height c) | None \<Rightarrow> real (elementHeight v))"

definition detectObjects_start ::
  "orchestrator \<Rightarrow> video option \<Rightarrow> int \<Rightarrow> start_result \<times> orchestrator" where
  "detectObjects_start s videoElement now =
     (if \<not> modelRef s \<or> videoElement = None \<or> readyState (the videoElement) < 2 \<or> isDetecting s
      then (ReturnedNull, s)
      else if now - lastDetectionTimeRef s < 100 then (ReturnedNull, s)
      else
        let v = the videoElement;
            s1 = s\<lparr>lastDetectionTimeRef := now\<rparr>;
            s2 = s1\<lparr>isDetecting := True\<rparr>;
            processedCanvas = preprocessVideo videoElement;
            s3 = (case processedCanvas of
                    None \<Rightarrow> s2
                  | Some c \<Rightarrow> s2\<lparr>liveCanvases := liveCanvases s2 + 1\<rparr>)
        in if processedCanvas = None \<and> (videoWidth v = 0 \<or> videoHeight v = 0)
           then (ReturnedNull, s3\<lparr>isDetecting := False\<rparr>)
           else (Pending v processedCanvas, s3))"

definition detectObjects_resume ::
  "orchestrator \<Rightarrow> video \<Rightarrow> canvas option \<Rightarrow> detect_error + prediction list \<Rightarrow> int \<Rightarrow> int
     \<Rightarrow> pipeline_result option \<times> orchestrator" where
  "detectObjects_resume s v processedCanvas detected smoothingNow currentTime =
     (case detected of
        Inl err \<Rightarrow> (None, s\<lparr>isDetecting := False\<rparr>)
      | Inr predictions \<Rightarrow>
          let inputWidth = inputElement_width v processedCanvas;
              inputHeight = inputElement_height v processedCanvas;
              filteredPredictions = filterPredictions predictions;
              nmsFiltered = applyNMS filteredPredictions 0.3;
              (smoothedPredictions, s1) = applyTemporalSmoothing s smoothingNow nmsFiltered;
              newDetections = newDetectionsOf currentTime smoothedPredictions;
              personDetections = personDetectionsOf smoothedPredictions;
              mobileDevices = mobileDevicesOf smoothedPredictions;
              computerDevices = computerDevicesOf smoothedPredictions;
              newFocusMetrics = newFocusMetricsOf smoothedPredictions inputWidth inputHeight;
              s2 = s1\<lparr>focusMetrics := newFocusMetrics\<rparr>;
              s3 = s2\<lparr>detections := appendDetections (detections s2) newDetections\<rparr>;
              s4 = (case processedCanvas of
                      None \<Rightarrow> s3
                    | Some c \<Rightarrow> s3\<lparr>liveCanvases := liveCanvases s3 - 1\<rparr>)
          in (Some \<lparr>r_predictions = smoothedPredictions,
                    r_newDetections = newDetections,
                    r_mobileCount = length mobileDevices,
                    r_personCount = length personDetections,
                    r_totalDevices = length mobileDevices + length computerDevices\<rparr>,
              s4\<lparr>isDetecting := False\<rparr>))"

text \<open>A whole pass, when no other call arrives during the wait.\<close>

definition detectObjects ::
  "orchestrator \<Rightarrow> video option \<Rightarrow> int \<Rightarrow> detect_error + prediction list \<Rightarrow> int \<Rightarrow> int
     \<Rightarrow> pipeline_result option \<times> orchestrator" where
  "detectObjects s videoElement now detected smoothingNow currentTime =
     (case detectObjects_start s videoElement now of
        (ReturnedNull, s') \<Rightarrow> (None, s')
      | (Pending v processedCanvas, s') \<Rightarrow>
          detectObjects_resume s' v processedCanvas detected smoothingNow currentTime)"

text \<open>The state of the hook when it is mounted, and once a model has been loaded.\<close>

definition initial_state :: orchestrator where
  "initial_state =
     \<lparr>modelRef = False, isDetecting = False, lastDetectionTimeRef = 0, detections = [],
      focusMetrics = \<lparr>focusScore = Fin 100, eyeContactScore = Fin 100,
                      headPoseScore = Fin 100, overallAttention = Fin 100\<rparr>,
      detectionHistoryRef = [], mobileDetectionHistory = [], liveCanvases = 0\<rparr>"

definition ready_state :: orchestrator where
  "ready_state = initial_state\<lparr>modelRef := True\<rparr>"

section \<open>Well-formed predictions\<close>


definition history_predictions :: "history_entry list \<Rightarrow> prediction list" where
  "history_predictions history = concat (map h_predictions history)"

section \<open>Example inputs\<close>

text \<open>Concrete inputs, used where a property is evaluated.\<close>

abbreviation example_video :: video where
  "example_video \<equiv> \<lparr>readyState = 4, videoWidth = 640, videoHeight = 480,
     elementWidth = 640, elementHeight = 480, context2d = True\<rparr>"


abbreviation phone_before :: prediction where
  "phone_before \<equiv> \<lparr>pclass = ''cell phone'', score = 0.8, bbox = (100, 100, 60, 100)\<rparr>"

abbreviation phone_now :: prediction where
  "phone_now \<equiv> \<lparr>pclass = ''cell phone'', score = 0.7, bbox = (102, 100, 60, 100)\<rparr>"

abbreviation person_before :: prediction where
  "person_before \<equiv> \<lparr>pclass = ''person'', score = 0.9, bbox = (100, 100, 60, 100)\<rparr>"

abbreviation state_with_history :: orchestrator where
  "state_with_history \<equiv> ready_state\<lparr>detectionHistoryRef :=
     [\<lparr>h_timestamp = 900, h_predictions = [phone_before, person_before]\<rparr>]\<rparr>"

section \<open>Properties of the intersection over union\<close>

declare inner_loop.simps [simp del] outer_loop.simps [simp del]










section \<open>The mobile validator\<close>

text \<open>
  Claim C1 on the code. The validator reads the first two entries of the box, which are
  its position, so a square device box (width 50, height 50) at position (60, 100) with
  score 0.9 is accepted and passes the class filter, and a portrait box of 60 by 100 at
  position (0, 0) with score 0.9 is rejected.
\<close>

theorem validateMobileDetection_reads_position:
  "validateMobileDetection \<lparr>pclass = ''cell phone'', score = 0.9, bbox = (60, 100, 50, 50)\<rparr> \<and>
   filterPredictions [\<lparr>pclass = ''cell phone'', score = 0.9, bbox = (60, 100, 50, 50)\<rparr>] =
     [\<lparr>pclass = ''cell phone'', score = 0.9, bbox = (60, 100, 50, 50)\<rparr>] \<and>
   \<not> validateMobileDetection \<lparr>pclass = ''cell phone'', score = 0.9, bbox = (0, 0, 60, 100)\<rparr>"
  by (simp add: validateMobileDetection_def filterPredictions_def class_threshold_def
      relevantClasses_def)

section \<open>The suppressor\<close>

text \<open>The two loops of \<open>processPredictions\<close> compute the greedy selection.\<close>

lemma inner_loop_char:
  "inner_loop srt thr i j S =
     S \<union> {k. j \<le> k \<and> k < length srt \<and> k \<notin> S \<and> suppresses thr (srt ! i) (srt ! k)}"
proof (induction srt thr i j S rule: inner_loop.induct)
  case (1 srt thr i j S)
  show ?case
  proof (cases "j < length srt")
    case False
    then show ?thesis by (subst inner_loop.simps) auto
  next
    case True
    have step: "inner_loop srt thr i j S =
        (if j \<in> S then inner_loop srt thr i (j + 1) S
         else if suppresses thr (srt ! i) (srt ! j)
              then inner_loop srt thr i (j + 1) (insert j S)
              else inner_loop srt thr i (j + 1) S)"
      using True by (subst inner_loop.simps) simp
    show ?thesis
    proof (cases "j \<in> S")
      case jS: True
      have "inner_loop srt thr i j S = inner_loop srt thr i (j + 1) S"
        using jS step by simp
      also have "\<dots> = S \<union> {k. j + 1 \<le> k \<and> k < length srt \<and> k \<notin> S \<and>
                        suppresses thr (srt ! i) (srt ! k)}"
        using 1(1) [OF True jS] .
      also have "\<dots> = S \<union> {k. j \<le> k \<and> k < length srt \<and> k \<notin> S \<and>
                        suppresses thr (srt ! i) (srt ! k)}"
      proof (rule set_eqI)
        fix k show "(k \<in> S \<union> {k. j + 1 \<le> k \<and> k < length srt \<and> k \<notin> S \<and>
                        suppresses thr (srt ! i) (srt ! k)}) =
            (k \<in> S \<union> {k. j \<le> k \<and> k < length srt \<and> k \<notin> S \<and>
                        suppresses thr (srt ! i) (srt ! k)})"
          using jS by (cases "k = j") auto
      qed
      finally show ?thesis .
    next
      case jS: False
      show ?thesis
      proof (cases "suppresses thr (srt ! i) (srt ! j)")
        case sup: True
        have "inner_loop srt thr i j S = inner_loop srt thr i (j + 1) (insert j S)"
          using jS sup step by simp
        also have "\<dots> = insert j S \<union> {k. j + 1 \<le> k \<and> k < length srt \<and> k \<notin> insert j S \<and>
                        suppresses thr (srt ! i) (srt ! k)}"
          using 1(2) [OF True jS sup] .
        also have "\<dots> = S \<union> {k. j \<le> k \<and> k < length srt \<and> k \<notin> S \<and>
                        suppresses thr (srt ! i) (srt ! k)}"
        proof (rule set_eqI)
          fix k show "(k \<in> insert j S \<union> {k. j + 1 \<le> k \<and> k < length srt \<and>
                        k \<notin> insert j S \<and> suppresses thr (srt ! i) (srt ! k)}) =
            (k \<in> S \<union> {k. j \<le> k \<and> k < length srt \<and> k \<notin> S \<and>
                        suppresses thr (srt ! i) (srt ! k)})"
            using jS sup True by (cases "k = j") auto
        qed
        finally show ?thesis .
      next
        case sup: False
        have "inner_loop srt thr i j S = inner_loop srt thr i (j + 1) S"
          using jS sup step by simp
        also have "\<dots> = S \<union> {k. j + 1 \<le> k \<and> k < length srt \<and> k \<notin> S \<and>
                        suppresses thr (srt ! i) (srt ! k)}"
          using 1(3) [OF True jS sup] .
        also have "\<dots> = S \<union> {k. j \<le> k \<and> k < length srt \<and> k \<notin> S \<and>
                        suppresses thr (srt ! i) (srt ! k)}"
        proof (rule set_eqI)
          fix k show "(k \<in> S \<union> {k. j + 1 \<le> k \<and> k < length srt \<and> k \<notin> S \<and>
                        suppresses thr (srt ! i) (srt ! k)}) =
            (k \<in> S \<union> {k. j \<le> k \<and> k < length srt \<and> k \<notin> S \<and>
                        suppresses thr (srt ! i) (srt ! k)})"
            using jS sup by (cases "k = j") auto
        qed
        finally show ?thesis .
      qed
    qed
  qed
qed

lemma outer_loop_greedy:
  "outer_loop srt thr i keep S =
     keep @ greedy_keep thr (map (\<lambda>k. srt ! k) (filter (\<lambda>k. k \<notin> S) [i..<length srt]))"
proof (induction srt thr i keep S rule: outer_loop.induct)
  case (1 srt thr i keep S)
  show ?case
  proof (cases "i < length srt")
    case False
    then show ?thesis by (subst outer_loop.simps) simp
  next
    case True
    then have upt: "[i..<length srt] = i # [Suc i..<length srt]"
      by (simp add: upt_conv_Cons)
    show ?thesis
    proof (cases "i \<in> S")
      case True
      with \<open>i < length srt\<close> 1(1) show ?thesis
        by (subst outer_loop.simps) (simp add: upt)
    next
      case False
      let ?S' = "inner_loop srt thr i (Suc i) S"
      have flt: "map (\<lambda>k. srt ! k) (filter (\<lambda>k. k \<notin> ?S') [Suc i..<length srt]) =
            filter (\<lambda>q. \<not> suppresses thr (srt ! i) q)
              (map (\<lambda>k. srt ! k) (filter (\<lambda>k. k \<notin> S) [Suc i..<length srt]))"
        unfolding filter_map filter_filter
        by (rule arg_cong [where f = "map _"], rule filter_cong)
           (auto simp: inner_loop_char o_def)
      have "outer_loop srt thr i keep S = outer_loop srt thr (i + 1) (keep @ [srt ! i])
              (inner_loop srt thr i (i + 1) S)"
        using True False by (subst outer_loop.simps) simp
      also have "\<dots> = (keep @ [srt ! i]) @ greedy_keep thr
              (map (\<lambda>k. srt ! k) (filter (\<lambda>k. k \<notin> ?S') [Suc i..<length srt]))"
        using 1(2) [OF True False] by simp
      also have "\<dots> = keep @ greedy_keep thr
              (map (\<lambda>k. srt ! k) (filter (\<lambda>k. k \<notin> S) (i # [Suc i..<length srt])))"
        unfolding flt using False by simp
      finally show ?thesis unfolding upt .
    qed
  qed
qed

lemma processPredictions_greedy:
  "processPredictions preds thr = greedy_keep thr (sort_key (\<lambda>p. - score p) preds)"
  by (simp add: processPredictions_def outer_loop_greedy map_nth)

lemma set_greedy_keep: "set (greedy_keep thr xs) \<subseteq> set xs"
  by (induction thr xs rule: greedy_keep.induct) auto

lemma sorted_wrt_greedy_keep:
  "sorted_wrt R xs \<Longrightarrow> sorted_wrt R (greedy_keep thr xs)"
proof (induction thr xs rule: greedy_keep.induct)
  case (1 thr)
  then show ?case by simp
next
  case (2 thr p ps)
  then have "sorted_wrt R (filter (\<lambda>q. \<not> suppresses thr p q) ps)"
    by (simp add: sorted_wrt_filter)
  with 2 show ?case using set_greedy_keep [of thr "filter (\<lambda>q. \<not> suppresses thr p q) ps"]
    by auto
qed

lemma greedy_keep_independent:
  "sorted_wrt (\<lambda>p q. \<not> suppresses thr p q) (greedy_keep thr xs)"
proof (induction thr xs rule: greedy_keep.induct)
  case (1 thr)
  then show ?case by simp
next
  case (2 thr p ps)
  then show ?case using set_greedy_keep [of thr "filter (\<lambda>q. \<not> suppresses thr p q) ps"]
    by auto
qed

lemma greedy_keep_id:
  "sorted_wrt (\<lambda>p q. \<not> suppresses thr p q) xs \<Longrightarrow> greedy_keep thr xs = xs"
  by (induction xs) (auto simp: filter_id_conv)

lemma processPredictions_idem:
  "processPredictions (processPredictions preds thr) thr = processPredictions preds thr"
proof -
  let ?k = "\<lambda>p. - score p"
  let ?g = "greedy_keep thr (sort_key ?k preds)"
  have "sorted (map ?k (sort_key ?k preds))" by simp
  then have "sorted_wrt (\<lambda>p q. ?k p \<le> ?k q) (sort_key ?k preds)"
    by (simp add: sorted_map)
  then have "sorted_wrt (\<lambda>p q. ?k p \<le> ?k q) ?g" by (rule sorted_wrt_greedy_keep)
  then have "sorted (map ?k ?g)" by (simp add: sorted_map)
  then have "sort_key ?k ?g = ?g" by (rule sort_key_id_if_sorted)
  then show ?thesis
    by (simp add: processPredictions_greedy greedy_keep_id greedy_keep_independent)
qed

lemma set_processPredictions: "set (processPredictions preds thr) \<subseteq> set preds"
  using set_greedy_keep [of thr "sort_key (\<lambda>p. - score p) preds"]
  by (simp add: processPredictions_greedy)

text \<open>
  Claim C7. Applying the suppressor to its own output, with the same threshold, gives
  that output again.
\<close>

theorem applyNMS_idempotent: "applyNMS (applyNMS p t) t = applyNMS p t"
proof (cases "length p \<le> 1")
  case True
  then show ?thesis by (simp add: applyNMS_def)
next
  case False
  let ?M = "processPredictions (filter (\<lambda>p. pclass p = ''cell phone'') p) 0.2"
  let ?O = "processPredictions (filter (\<lambda>p. pclass p \<noteq> ''cell phone'') p) t"
  have r: "applyNMS p t = ?M @ ?O" using False by (simp add: applyNMS_def Let_def)
  have m: "\<forall>q \<in> set ?M. pclass q = ''cell phone''"
    using set_processPredictions [of "filter (\<lambda>p. pclass p = ''cell phone'') p" "0.2"] by auto
  have o: "\<forall>q \<in> set ?O. pclass q \<noteq> ''cell phone''"
    using set_processPredictions [of "filter (\<lambda>p. pclass p \<noteq> ''cell phone'') p" t] by auto
  have "filter (\<lambda>p. pclass p = ''cell phone'') ?M = ?M"
    by (rule filter_True) (rule m)
  moreover have "filter (\<lambda>p. pclass p = ''cell phone'') ?O = []"
    by (rule filter_False) (rule o)
  ultimately have fm: "filter (\<lambda>p. pclass p = ''cell phone'') (?M @ ?O) = ?M"
    by (simp only: filter_append append_Nil2)
  have "filter (\<lambda>p. pclass p \<noteq> ''cell phone'') ?O = ?O"
    by (rule filter_True) (rule o)
  moreover have "filter (\<lambda>p. pclass p \<noteq> ''cell phone'') ?M = []"
    by (rule filter_False) (use m in blast)
  ultimately have fo: "filter (\<lambda>p. pclass p \<noteq> ''cell phone'') (?M @ ?O) = ?O"
    by (simp only: filter_append append_Nil)
  show ?thesis
  proof (cases "length (?M @ ?O) \<le> 1")
    case True
    then show ?thesis unfolding r by (subst applyNMS_def) simp
  next
    case False
    then have "applyNMS (?M @ ?O) t = processPredictions ?M 0.2 @ processPredictions ?O t"
      by (subst applyNMS_def) (simp only: fm fo Let_def if_False)
    then show ?thesis unfolding r by (simp only: processPredictions_idem)
  qed
qed

section \<open>The suppressor and its threshold\<close>

lemma suppresses_mono: "t1 \<le> t2 \<Longrightarrow> suppresses t2 p q \<Longrightarrow> suppresses t1 p q"
  by (cases "calculateIoU (bbox p) (bbox q)") (auto simp: suppresses_def Let_def)

lemma greedy_keep_short_mono:
  assumes "length xs \<le> 3" and "t1 \<le> t2"
  shows "length (greedy_keep t1 xs) \<le> length (greedy_keep t2 xs)"
proof -
  note m = suppresses_mono [OF assms(2)]
  show ?thesis
  proof (cases xs)
    case Nil
    then show ?thesis by simp
  next
    case xs: (Cons a ys)
    show ?thesis
    proof (cases ys)
      case Nil
      with xs show ?thesis by simp
    next
      case ys: (Cons b zs)
      show ?thesis
      proof (cases zs)
        case Nil
        with xs ys show ?thesis using m [of a b] by auto
      next
        case zs: (Cons c ws)
        with xs ys assms(1) have ws: "ws = []" by simp
        show ?thesis unfolding xs ys zs ws
          using m [of a b] m [of a c] m [of b c] by auto
      qed
    qed
  qed
qed

lemma filter_greedy_keep:
  assumes "\<And>p q. pclass p = pclass q \<Longrightarrow> P p = P q"
  shows "filter P (greedy_keep t xs) = greedy_keep t (filter P xs)"
proof (induction t xs rule: greedy_keep.induct)
  case (1 t)
  show ?case by simp
next
  case (2 t p ps)
  let ?rest = "filter (\<lambda>q. \<not> suppresses t p q) ps"
  show ?case
  proof (cases "P p")
    case True
    have "filter P ?rest = filter (\<lambda>q. \<not> suppresses t p q) (filter P ps)"
      by (simp add: conj_commute)
    with True 2 show ?thesis by simp
  next
    case False
    have "filter P ?rest = filter P ps"
      unfolding filter_filter
    proof (rule filter_cong [OF refl])
      fix q assume "q \<in> set ps"
      show "(\<not> suppresses t p q \<and> P q) = P q"
        using False assms [of p q] by (auto simp: suppresses_def Let_def)
    qed
    with False 2 show ?thesis by simp
  qed
qed

lemma length_greedy_keep_split:
  "length (greedy_keep t xs) =
     length (greedy_keep t (filter (\<lambda>q. pclass q = c) xs)) +
     length (greedy_keep t (filter (\<lambda>q. pclass q \<noteq> c) xs))"
proof -
  have "length (greedy_keep t xs) =
      length (filter (\<lambda>q. pclass q = c) (greedy_keep t xs)) +
      length (filter (\<lambda>q. \<not> pclass q = c) (greedy_keep t xs))"
    by (simp only: sum_length_filter_compl)
  also have "filter (\<lambda>q. pclass q = c) (greedy_keep t xs) =
      greedy_keep t (filter (\<lambda>q. pclass q = c) xs)"
    by (rule filter_greedy_keep) simp
  also have "filter (\<lambda>q. \<not> pclass q = c) (greedy_keep t xs) =
      greedy_keep t (filter (\<lambda>q. pclass q \<noteq> c) xs)"
    by (rule filter_greedy_keep) simp
  finally show ?thesis .
qed

lemma greedy_keep_mono_classes:
  assumes "\<forall>c. length (filter (\<lambda>q. pclass q = c) xs) \<le> 3" and "t1 \<le> t2"
  shows "length (greedy_keep t1 xs) \<le> length (greedy_keep t2 xs)"
  using assms(1)
proof (induction xs rule: length_induct)
  case (1 xs)
  show ?case
  proof (cases xs)
    case Nil
    then show ?thesis by simp
  next
    case (Cons p ps)
    let ?c = "pclass p"
    let ?A = "filter (\<lambda>q. pclass q = ?c) xs"
    let ?B = "filter (\<lambda>q. pclass q \<noteq> ?c) xs"
    have "length ?A \<le> 3" using 1(2) by blast
    then have a: "length (greedy_keep t1 ?A) \<le> length (greedy_keep t2 ?A)"
      using assms(2) by (rule greedy_keep_short_mono)
    have "p \<in> set xs" using Cons by simp
    then have shorter: "length ?B < length xs"
      by (rule length_filter_less) simp
    have "\<forall>c. length (filter (\<lambda>q. pclass q = c) ?B) \<le> 3"
    proof
      fix c
      have "length (filter (\<lambda>q. pclass q = c) ?B) \<le> length (filter (\<lambda>q. pclass q = c) xs)"
        unfolding filter_filter
        by (induction xs) auto
      also have "\<dots> \<le> 3" using 1(2) by blast
      finally show "length (filter (\<lambda>q. pclass q = c) ?B) \<le> 3" .
    qed
    with 1(1) shorter have b: "length (greedy_keep t1 ?B) \<le> length (greedy_keep t2 ?B)"
      by blast
    from a b show ?thesis
      by (simp only: length_greedy_keep_split [of t1 xs ?c] length_greedy_keep_split [of t2 xs ?c])
  qed
qed

lemma processPredictions_mono_classes:
  assumes "\<forall>c. length (filter (\<lambda>q. pclass q = c) preds) \<le> 3" and "t1 \<le> t2"
  shows "length (processPredictions preds t1) \<le> length (processPredictions preds t2)"
  unfolding processPredictions_greedy
proof (rule greedy_keep_mono_classes [OF _ assms(2)], rule allI)
  fix c
  have "filter (\<lambda>q. pclass q = c) (sort_key (\<lambda>p. - score p) preds) =
      sort_key (\<lambda>p. - score p) (filter (\<lambda>q. pclass q = c) preds)"
    by (rule filter_sort)
  then show "length (filter (\<lambda>q. pclass q = c) (sort_key (\<lambda>p. - score p) preds)) \<le> 3"
    using assms(1) by simp
qed

lemma example_phone_iou:
  "calculateIoU (100, 100, 60, 100) (102, 100, 60, 100) = Fin (29 / 31)"
  "calculateIoU (102, 100, 60, 100) (102, 100, 60, 100) = Fin 1"
  by (simp_all add: calculateIoU_def intersection_empty_def intersect_area_def union_area_def)

lemma example_ious:
  "calculateIoU (0, 5, 10, 10) (0, 0, 10, 10) = Fin (1 / 3)"
  "calculateIoU (0, 5, 10, 10) (0, 0, 6, 10) = Fin (3 / 13)"
  "calculateIoU (0, 5, 10, 10) (4, 0, 6, 10) = Fin (3 / 13)"
  "calculateIoU (0, 0, 10, 10) (0, 0, 6, 10) = Fin (3 / 5)"
  "calculateIoU (0, 0, 10, 10) (4, 0, 6, 10) = Fin (3 / 5)"
  "calculateIoU (0, 0, 6, 10) (4, 0, 6, 10) = Fin (1 / 5)"
  by (simp_all add: calculateIoU_def intersection_empty_def intersect_area_def union_area_def)

text \<open>
  Claim C8, as amended. When no class other than the device class occurs more than three
  times in the list, raising the threshold never decreases the number of predictions the
  suppressor keeps.
\<close>

theorem applyNMS_monotone_few_per_class:
  assumes "\<forall>c. c \<noteq> ''cell phone'' \<longrightarrow> length (filter (\<lambda>q. pclass q = c) p) \<le> 3"
    and "t1 \<le> t2"
  shows "length (applyNMS p t1) \<le> length (applyNMS p t2)"
proof (cases "length p \<le> 1")
  case True
  then show ?thesis by (simp add: applyNMS_def)
next
  case False
  let ?O = "filter (\<lambda>q. pclass q \<noteq> ''cell phone'') p"
  have "\<forall>c. length (filter (\<lambda>q. pclass q = c) ?O) \<le> 3"
  proof
    fix c
    show "length (filter (\<lambda>q. pclass q = c) ?O) \<le> 3"
    proof (cases "c = ''cell phone''")
      case True
      then have "filter (\<lambda>q. pclass q = c) ?O = []"
        by (simp add: filter_empty_conv)
      then show ?thesis by simp
    next
      case False
      have "length (filter (\<lambda>q. pclass q = c) ?O) \<le> length (filter (\<lambda>q. pclass q = c) p)"
        unfolding filter_filter by (induction p) auto
      also have "\<dots> \<le> 3" using assms(1) False by blast
      finally show ?thesis .
    qed
  qed
  from processPredictions_mono_classes [OF this assms(2)] False
  show ?thesis by (simp add: applyNMS_def Let_def)
qed

theorem applyNMS_monotone_few_per_class_witness:
  "(0.3 :: real) \<le> 0.5 \<and>
   length (filter (\<lambda>q. pclass q \<noteq> ''cell phone'') [phone_before, phone_now, 
      \<lparr>pclass = ''person'', score = 0.9, bbox = (0, 5, 10, 10)\<rparr>,
      \<lparr>pclass = ''person'', score = 0.8, bbox = (0, 0, 10, 10)\<rparr>]) = 2 \<and>
   length (applyNMS [phone_before, phone_now, 
      \<lparr>pclass = ''person'', score = 0.9, bbox = (0, 5, 10, 10)\<rparr>,
      \<lparr>pclass = ''person'', score = 0.8, bbox = (0, 0, 10, 10)\<rparr>] 0.3) \<le>
     length (applyNMS [phone_before, phone_now, 
      \<lparr>pclass = ''person'', score = 0.9, bbox = (0, 5, 10, 10)\<rparr>,
      \<lparr>pclass = ''person'', score = 0.8, bbox = (0, 0, 10, 10)\<rparr>] 0.5) \<and>
   length (applyNMS [phone_before, phone_now, 
      \<lparr>pclass = ''person'', score = 0.9, bbox = (0, 5, 10, 10)\<rparr>,
      \<lparr>pclass = ''person'', score = 0.8, bbox = (0, 0, 10, 10)\<rparr>] 0.3) = 2 \<and>
   length (applyNMS [phone_before, phone_now, 
      \<lparr>pclass = ''person'', score = 0.9, bbox = (0, 5, 10, 10)\<rparr>,
      \<lparr>pclass = ''person'', score = 0.8, bbox = (0, 0, 10, 10)\<rparr>] 0.5) = 3"
proof -
  have h: "\<forall>c. c \<noteq> ''cell phone'' \<longrightarrow>
      length (filter (\<lambda>q. pclass q = c) [phone_before, phone_now, 
      \<lparr>pclass = ''person'', score = 0.9, bbox = (0, 5, 10, 10)\<rparr>,
      \<lparr>pclass = ''person'', score = 0.8, bbox = (0, 0, 10, 10)\<rparr>]) \<le> 3"
    by simp
  have t: "(0.3 :: real) \<le> 0.5" by simp
  have n: "length (filter (\<lambda>q. pclass q \<noteq> ''cell phone'')
      [phone_before, phone_now, 
      \<lparr>pclass = ''person'', score = 0.9, bbox = (0, 5, 10, 10)\<rparr>,
      \<lparr>pclass = ''person'', score = 0.8, bbox = (0, 0, 10, 10)\<rparr>]) = 2"
    by simp
  have v: "length (applyNMS [phone_before, phone_now, 
      \<lparr>pclass = ''person'', score = 0.9, bbox = (0, 5, 10, 10)\<rparr>,
      \<lparr>pclass = ''person'', score = 0.8, bbox = (0, 0, 10, 10)\<rparr>] 0.3) = 2 \<and>
      length (applyNMS [phone_before, phone_now, 
      \<lparr>pclass = ''person'', score = 0.9, bbox = (0, 5, 10, 10)\<rparr>,
      \<lparr>pclass = ''person'', score = 0.8, bbox = (0, 0, 10, 10)\<rparr>] 0.5) = 3"
    by (simp add: applyNMS_def processPredictions_greedy suppresses_def example_ious
        example_phone_iou)
  from t n v applyNMS_monotone_few_per_class [OF h t] show ?thesis by (intro conjI) simp_all
qed

text \<open>
  Claim C8 as stated fails with four predictions of one class. At threshold 0.3 the
  best prediction suppresses the second, and the third and fourth are kept; at
  threshold 0.5 the second is kept and suppresses the third and the fourth.
\<close>

theorem applyNMS_threshold_counterexample:
  "(0.3 :: real) \<le> 0.5 \<and>
   length (applyNMS [\<lparr>pclass = ''person'', score = 0.9, bbox = (0, 5, 10, 10)\<rparr>,
      \<lparr>pclass = ''person'', score = 0.8, bbox = (0, 0, 10, 10)\<rparr>,
      \<lparr>pclass = ''person'', score = 0.7, bbox = (0, 0, 6, 10)\<rparr>,
      \<lparr>pclass = ''person'', score = 0.6, bbox = (4, 0, 6, 10)\<rparr>] 0.3) = 3 \<and>
   length (applyNMS [\<lparr>pclass = ''person'', score = 0.9, bbox = (0, 5, 10, 10)\<rparr>,
      \<lparr>pclass = ''person'', score = 0.8, bbox = (0, 0, 10, 10)\<rparr>,
      \<lparr>pclass = ''person'', score = 0.7, bbox = (0, 0, 6, 10)\<rparr>,
      \<lparr>pclass = ''person'', score = 0.6, bbox = (4, 0, 6, 10)\<rparr>] 0.5) = 2 \<and>
   \<not> length (applyNMS [\<lparr>pclass = ''person'', score = 0.9, bbox = (0, 5, 10, 10)\<rparr>,
      \<lparr>pclass = ''person'', score = 0.8, bbox = (0, 0, 10, 10)\<rparr>,
      \<lparr>pclass = ''person'', score = 0.7, bbox = (0, 0, 6, 10)\<rparr>,
      \<lparr>pclass = ''person'', score = 0.6, bbox = (4, 0, 6, 10)\<rparr>] 0.3) \<le> length (applyNMS [\<lparr>pclass = ''person'', score = 0.9, bbox = (0, 5, 10, 10)\<rparr>,
      \<lparr>pclass = ''person'', score = 0.8, bbox = (0, 0, 10, 10)\<rparr>,
      \<lparr>pclass = ''person'', score = 0.7, bbox = (0, 0, 6, 10)\<rparr>,
      \<lparr>pclass = ''person'', score = 0.6, bbox = (4, 0, 6, 10)\<rparr>] 0.5)"
  by (simp add: applyNMS_def processPredictions_greedy suppresses_def example_ious)

section \<open>Temporal smoothing: what is fused\<close>

lemma applyTemporalSmoothing_result:
  assumes "applyTemporalSmoothing s now currentPredictions = (smoothed, s')"
  shows "detectionHistoryRef s' =
           filter (\<lambda>entry. now - h_timestamp entry \<le> 600)
             (detectionHistoryRef s @
                [\<lparr>h_timestamp = now, h_predictions = currentPredictions\<rparr>])"
    and "smoothed =
           (if length (detectionHistoryRef s') < 2 then currentPredictions
            else map (smooth_prediction (detectionHistoryRef s')) currentPredictions)"
  using assms by (auto simp: applyTemporalSmoothing_def Let_def split: if_splits)

lemma similarDetections_match:
  assumes "m \<in> set (similarDetections history prediction)"
  shows "m \<in> set (history_predictions history) \<and> pclass m = pclass prediction \<and>
         js_gt (calculateIoU (bbox m) (bbox prediction))
           (if pclass prediction = ''cell phone'' then 0.4 else 0.5)"
  using assms
  by (auto simp: similarDetections_def history_predictions_def Let_def split: if_splits)

lemma example_smoothing:
  "applyTemporalSmoothing state_with_history 1000 [phone_now] =
     ([\<lparr>pclass = ''cell phone'', score = 69 / 80, bbox = (101, 100, 60, 100)\<rparr>],
      state_with_history\<lparr>detectionHistoryRef :=
         [\<lparr>h_timestamp = 900, h_predictions = [phone_before, person_before]\<rparr>,
          \<lparr>h_timestamp = 1000, h_predictions = [phone_now]\<rparr>],
        mobileDetectionHistory :=
         [\<lparr>m_timestamp = 1000, m_bbox = (102, 100, 60, 100), m_confidence = 0.7\<rparr>]\<rparr>)"
  by (simp add: applyTemporalSmoothing_def Let_def ready_state_def initial_state_def
      smooth_prediction_def similarDetections_def example_phone_iou fuse_def)

lemma example_similar:
  "similarDetections
     [\<lparr>h_timestamp = 900, h_predictions = [phone_before, person_before]\<rparr>,
      \<lparr>h_timestamp = 1000, h_predictions = [phone_now]\<rparr>] phone_now =
   [phone_before, phone_now]"
  by (simp add: similarDetections_def example_phone_iou)

text \<open>
  Claim C6. Each smoothed prediction is either the current prediction unchanged or the
  fusion of the current prediction with its similar detections, and every similar
  detection comes from the pruned history, has the class of the current prediction and
  an intersection over union with it strictly above the match threshold of that class
  (0.4 for the device class, 0.5 otherwise).
\<close>

theorem smoothing_fuses_matches_only:
  assumes "applyTemporalSmoothing s now currentPredictions = (smoothed, s')"
    and "i < length currentPredictions"
  shows "length smoothed = length currentPredictions \<and>
         smoothed ! i =
           (if length (detectionHistoryRef s') < 2 \<or>
               length (similarDetections (detectionHistoryRef s') (currentPredictions ! i)) < 2
            then currentPredictions ! i
            else fuse (currentPredictions ! i)
                   (similarDetections (detectionHistoryRef s') (currentPredictions ! i))) \<and>
         (\<forall>m \<in> set (similarDetections (detectionHistoryRef s') (currentPredictions ! i)).
            m \<in> set (history_predictions (detectionHistoryRef s')) \<and>
            pclass m = pclass (currentPredictions ! i) \<and>
            js_gt (calculateIoU (bbox m) (bbox (currentPredictions ! i)))
              (if pclass (currentPredictions ! i) = ''cell phone'' then 0.4 else 0.5))"
proof (intro conjI ballI)
  note r = applyTemporalSmoothing_result [OF assms(1)]
  show "length smoothed = length currentPredictions"
    by (subst r(2)) simp
  show "smoothed ! i =
      (if length (detectionHistoryRef s') < 2 \<or>
          length (similarDetections (detectionHistoryRef s') (currentPredictions ! i)) < 2
       then currentPredictions ! i
       else fuse (currentPredictions ! i)
              (similarDetections (detectionHistoryRef s') (currentPredictions ! i)))"
    using assms(2) by (subst r(2)) (auto simp: smooth_prediction_def Let_def)
next
  fix m
  assume "m \<in> set (similarDetections (detectionHistoryRef s') (currentPredictions ! i))"
  from similarDetections_match [OF this]
  show "m \<in> set (history_predictions (detectionHistoryRef s'))"
    and "pclass m = pclass (currentPredictions ! i)"
    and "js_gt (calculateIoU (bbox m) (bbox (currentPredictions ! i)))
           (if pclass (currentPredictions ! i) = ''cell phone'' then 0.4 else 0.5)"
    by simp_all
qed

theorem smoothing_fuses_matches_only_witness:
  "applyTemporalSmoothing state_with_history 1000 [phone_now] =
     ([\<lparr>pclass = ''cell phone'', score = 69 / 80, bbox = (101, 100, 60, 100)\<rparr>],
      state_with_history\<lparr>detectionHistoryRef :=
         [\<lparr>h_timestamp = 900, h_predictions = [phone_before, person_before]\<rparr>,
          \<lparr>h_timestamp = 1000, h_predictions = [phone_now]\<rparr>],
        mobileDetectionHistory :=
         [\<lparr>m_timestamp = 1000, m_bbox = (102, 100, 60, 100), m_confidence = 0.7\<rparr>]\<rparr>) \<and>
   (0 :: nat) < length [phone_now] \<and>
   similarDetections
     [\<lparr>h_timestamp = 900, h_predictions = [phone_before, person_before]\<rparr>,
      \<lparr>h_timestamp = 1000, h_predictions = [phone_now]\<rparr>] phone_now =
     [phone_before, phone_now] \<and>
   \<lparr>pclass = ''cell phone'', score = 69 / 80, bbox = (101, 100, 60, 100)\<rparr> =
     fuse phone_now [phone_before, phone_now] \<and>
   pclass phone_before = pclass phone_now \<and>
   js_gt (calculateIoU (bbox phone_before) (bbox phone_now)) 0.4"
proof -
  note run = example_smoothing
  have i: "(0 :: nat) < length [phone_now]" by simp
  have hs: "\<And>h m. detectionHistoryRef
      (state_with_history\<lparr>detectionHistoryRef := h, mobileDetectionHistory := m\<rparr>) = h"
    by simp
  note t = smoothing_fuses_matches_only [OF run i, unfolded hs nth_Cons_0 example_similar]
  from t have f: "\<lparr>pclass = ''cell phone'', score = 69 / 80, bbox = (101, 100, 60, 100)\<rparr> =
      fuse phone_now [phone_before, phone_now]"
    by simp
  from t have "pclass phone_before = pclass phone_now \<and>
      js_gt (calculateIoU (bbox phone_before) (bbox phone_now)) 0.4"
    by simp
  with run i f example_similar show ?thesis by simp
qed

section \<open>The event log\<close>



lemma detections_after_resume:
  "detections (snd (detectObjects_resume s v c (Inr predictions) t1 t2)) =
     appendDetections (detections s)
       (r_newDetections (the (fst (detectObjects_resume s v c (Inr predictions) t1 t2))))"
  by (auto simp: detectObjects_resume_def Let_def applyTemporalSmoothing_def
      split: prod.splits option.splits)



section \<open>Rejected invocations\<close>

lemma example_start:
  "detectObjects_start ready_state (Some example_video) 1000 =
   (Pending example_video (Some \<lparr>c_width = 640, c_height = 480\<rparr>),
    ready_state\<lparr>lastDetectionTimeRef := 1000, isDetecting := True, liveCanvases := 1\<rparr>)"
proof -
  have c: "preprocessVideo (Some example_video) = Some \<lparr>c_width = 640, c_height = 480\<rparr>"
    by (simp add: preprocessVideo_def)
  show ?thesis
    by (simp add: detectObjects_start_def c Let_def) (simp add: ready_state_def initial_state_def)
qed

text \<open>
  Claim C4. An invocation made while a detection is in flight, or less than 100 ms after
  the start of the last accepted invocation, or while no model is loaded, returns null
  and leaves the whole state of the orchestrator unchanged.
\<close>

theorem detectObjects_rejected_unchanged:
  assumes "isDetecting s \<or> now - lastDetectionTimeRef s < 100 \<or> \<not> modelRef s"
  shows "detectObjects_start s videoElement now = (ReturnedNull, s) \<and>
         detectObjects s videoElement now detected smoothingNow currentTime = (None, s)"
  using assms by (auto simp: detectObjects_start_def detectObjects_def)

theorem detectObjects_rejected_unchanged_witness:
  "detectObjects_start ready_state (Some example_video) 1000 =
     (Pending example_video (Some \<lparr>c_width = 640, c_height = 480\<rparr>),
      ready_state\<lparr>lastDetectionTimeRef := 1000, isDetecting := True, liveCanvases := 1\<rparr>) \<and>
   detectObjects_start
     (ready_state\<lparr>lastDetectionTimeRef := 1000, isDetecting := True, liveCanvases := 1\<rparr>)
     (Some example_video) 1050 =
     (ReturnedNull,
      ready_state\<lparr>lastDetectionTimeRef := 1000, isDetecting := True, liveCanvases := 1\<rparr>) \<and>
   1050 - lastDetectionTimeRef (ready_state\<lparr>lastDetectionTimeRef := 1000\<rparr>) < 100 \<and>
   detectObjects (ready_state\<lparr>lastDetectionTimeRef := 1000\<rparr>)
     (Some example_video) 1050 (Inr []) 1060 1061 =
     (None, ready_state\<lparr>lastDetectionTimeRef := 1000\<rparr>) \<and>
   \<not> modelRef initial_state \<and>
   detectObjects initial_state (Some example_video) 1000 (Inr []) 1001 1002 =
     (None, initial_state)"
proof -
  let ?pending =
    "ready_state\<lparr>lastDetectionTimeRef := 1000, isDetecting := True, liveCanvases := 1\<rparr>"
  let ?recent = "ready_state\<lparr>lastDetectionTimeRef := 1000\<rparr>"
  have a: "isDetecting ?pending \<or> 1050 - lastDetectionTimeRef ?pending < 100 \<or>
      \<not> modelRef ?pending" by simp
  have b: "1050 - lastDetectionTimeRef ?recent < 100" by simp
  then have b': "isDetecting ?recent \<or> 1050 - lastDetectionTimeRef ?recent < 100 \<or>
      \<not> modelRef ?recent" by blast
  have c: "\<not> modelRef initial_state" by (simp add: initial_state_def)
  then have c': "isDetecting initial_state \<or>
      1000 - lastDetectionTimeRef initial_state < 100 \<or> \<not> modelRef initial_state" by blast
  from example_start b c detectObjects_rejected_unchanged [OF a]
    detectObjects_rejected_unchanged [OF b'] detectObjects_rejected_unchanged [OF c']
  show ?thesis by blast
qed

section \<open>Release of the canvas\<close>

text \<open>
  Claim C5 on the code. With a ready video of 640 by 480 the pass creates a canvas. When
  the detector throws, the pass returns null and the canvas is still live afterwards;
  when the detector answers, the canvas is removed.
\<close>

theorem canvas_not_released_when_detector_throws:
  "preprocessVideo (Some example_video) =
     Some \<lparr>c_width = 640, c_height = 480\<rparr> \<and>
   detectObjects ready_state
     (Some example_video) 1000 (Inl DetectorThrew) 1001 1002 =
     (None, ready_state\<lparr>lastDetectionTimeRef := 1000, liveCanvases := 1\<rparr>) \<and>
   liveCanvases (snd (detectObjects ready_state
     (Some example_video) 1000 (Inr []) 1001 1002)) = 0"
  by (simp add: preprocessVideo_def detectObjects_def detectObjects_start_def
      detectObjects_resume_def ready_state_def initial_state_def Let_def
      filterPredictions_def applyNMS_def applyTemporalSmoothing_def)

section \<open>The published scores\<close>




























end
